theory Spec2Isabelle
  imports Main "HOL-Library.Finite_Map"
begin

section \<open>Python objects and the backing store\<close>

text \<open>
  The containers of \<^verbatim>\<open>schooltool/db.py\<close> never look inside a key: they read its identity
  (\<^verbatim>\<open>id(key)\<close>), test whether it has a \<^verbatim>\<open>_p_oid\<close> attribute and read that attribute. A key is
  therefore a reference into a heap of objects, and \<^verbatim>\<open>id(key)\<close> is the reference itself.
  An object either has no \<^verbatim>\<open>_p_oid\<close> attribute at all (\<open>Plain\<close>) or has one, holding
  \<^verbatim>\<open>None\<close> or an object identifier.
\<close>

type_synonym ref = nat
type_synonym oid = nat

datatype pyobj = Plain | Persistent "oid option"

datatype error = TypeError | KeyError | AssertionError | AttributeError

datatype connection = Connection

text \<open>
  The world outside the containers: the heap of key objects and the one ZODB connection of
  the model. The connection is not part of \<^verbatim>\<open>db.py\<close>; its two methods are modelled below.
\<close>

record world =
  heap :: "ref \<Rightarrow> pyobj"
  next_oid :: oid
  objects :: "(oid, ref) fmap"

definition id_of :: "ref \<Rightarrow> nat" where
  "id_of key = key"

definition hasattr_p_oid :: "world \<Rightarrow> ref \<Rightarrow> bool" where
  "hasattr_p_oid w key = (case heap w key of Plain \<Rightarrow> False | Persistent _ \<Rightarrow> True)"

text \<open>Reading \<^verbatim>\<open>key._p_oid\<close>: an object without the attribute raises \<^verbatim>\<open>AttributeError\<close>.\<close>

definition p_oid :: "world \<Rightarrow> ref \<Rightarrow> error + oid option" where
  "p_oid w key = (case heap w key of Plain \<Rightarrow> Inl AttributeError | Persistent oid \<Rightarrow> Inr oid)"

text \<open>
  Modelled from the spec: the Backing Store's \<^verbatim>\<open>attach(object) -> stable_id\<close>
  (\<^verbatim>\<open>jar.add\<close> in the source, a method of the ZODB connection, which is not under src/):
  it registers a previously unattached object under a fresh identifier and is idempotent on
  an object that is already attached. An object without the identifier slot is refused.
\<close>

definition jar_add :: "ref \<Rightarrow> world \<Rightarrow> error + world" where
  "jar_add obj w =
     (case heap w obj of
        Plain \<Rightarrow> Inl TypeError
      | Persistent (Some _) \<Rightarrow> Inr w
      | Persistent None \<Rightarrow>
          Inr (w\<lparr>heap := (heap w)(obj := Persistent (Some (next_oid w))),
                 objects := fmupd (next_oid w) obj (objects w),
                 next_oid := Suc (next_oid w)\<rparr>))"

text \<open>
  Modelled from the spec: the Backing Store's \<^verbatim>\<open>resolve(stable_id) -> object\<close>
  (\<^verbatim>\<open>jar.get\<close> in the source, not under src/): the reverse lookup; an identifier the store
  never assigned is a \<^verbatim>\<open>KeyError\<close>.
\<close>

definition jar_get :: "world \<Rightarrow> oid \<Rightarrow> error + ref" where
  "jar_get w oid = (case fmlookup (objects w) oid of None \<Rightarrow> Inl KeyError | Some obj \<Rightarrow> Inr obj)"

section \<open>Dictionaries\<close>

text \<open>
  A Python dictionary is a finite map. The source is Python 2, where the order in which a
  dictionary is iterated is the order of its hash slots: it depends on the hashes of the
  keys (for the staging dictionary, the addresses that \<^verbatim>\<open>id(key)\<close> returns) and on the
  insertions and deletions the dictionary has seen. A finite map holds neither, so the
  order within one dictionary is outside the model. \<open>dict_iter\<close> enumerates the keys
  without repetition, in ascending order only to have a list; what is proved below uses
  that every key occurs once, and states no order within a dictionary.
\<close>

definition dict_iter :: "('k::linorder, 'a) fmap \<Rightarrow> 'k list" where
  "dict_iter d = sorted_list_of_fset (fmdom d)"

definition itervalues :: "('k::linorder, 'a) fmap \<Rightarrow> 'a list" where
  "itervalues d = List.map_filter (fmlookup d) (dict_iter d)"

definition dict_len :: "('k, 'a) fmap \<Rightarrow> nat" where
  "dict_len d = fcard (fmdom d)"

section \<open>PersistentKeysDict\<close>

text \<open>
  \<open>data\<close> is \<^verbatim>\<open>self._data\<close>, the persistent dictionary from identifiers to values;
  \<open>tmpdata\<close> is \<^verbatim>\<open>self._tmpdata\<close>, the volatile dictionary from \<^verbatim>\<open>id(key)\<close> to the pair
  \<^verbatim>\<open>(key, value)\<close> (the property creates it empty on first use, so a missing one reads as
  empty); \<open>p_jar\<close> is \<^verbatim>\<open>self._p_jar\<close>.
\<close>

record 'v PersistentKeysDict =
  p_jar :: "connection option"
  data :: "(oid, 'v) fmap"
  tmpdata :: "(nat, ref \<times> 'v) fmap"

definition init :: "'v PersistentKeysDict" where
  "init = \<lparr>p_jar = None, data = fmempty, tmpdata = fmempty\<rparr>"

definition checkKey :: "world \<Rightarrow> ref \<Rightarrow> error + unit" where
  "checkKey w key = (if \<not> hasattr_p_oid w key then Inl TypeError else Inr ())"

text \<open>
  Every method returns its result together with the container as the call leaves it, also
  when it raises. \<^verbatim>\<open>self._data[None]\<close> is a \<^verbatim>\<open>KeyError\<close>: no method stores under \<^verbatim>\<open>None\<close>.
\<close>

definition setitem ::
  "world \<Rightarrow> ref \<Rightarrow> 'v \<Rightarrow> 'v PersistentKeysDict \<Rightarrow> (error + unit) \<times> 'v PersistentKeysDict" where
  "setitem w key val self =
     (case checkKey w key of
        Inl e \<Rightarrow> (Inl e, self)
      | Inr _ \<Rightarrow>
          (case p_oid w key of
             Inl e \<Rightarrow> (Inl e, self)
           | Inr None \<Rightarrow>
               (Inr (), self\<lparr>tmpdata := fmupd (id_of key) (key, val) (tmpdata self)\<rparr>)
           | Inr (Some i) \<Rightarrow>
               if p_jar self = None
               then (Inr (), self\<lparr>tmpdata := fmupd (id_of key) (key, val) (tmpdata self)\<rparr>)
               else (Inr (), self\<lparr>data := fmupd i val (data self)\<rparr>)))"

definition getitem ::
  "world \<Rightarrow> ref \<Rightarrow> 'v PersistentKeysDict \<Rightarrow> (error + 'v) \<times> 'v PersistentKeysDict" where
  "getitem w key self =
     (case checkKey w key of
        Inl e \<Rightarrow> (Inl e, self)
      | Inr _ \<Rightarrow>
          if id_of key |\<in>| fmdom (tmpdata self)
          then (case fmlookup (tmpdata self) (id_of key) of
                  None \<Rightarrow> (Inl KeyError, self)
                | Some (k, v) \<Rightarrow> (Inr v, self))
          else (case p_oid w key of
                  Inl e \<Rightarrow> (Inl e, self)
                | Inr None \<Rightarrow> (Inl KeyError, self)
                | Inr (Some i) \<Rightarrow>
                    (case fmlookup (data self) i of
                       None \<Rightarrow> (Inl KeyError, self)
                     | Some v \<Rightarrow> (Inr v, self))))"

definition delitem ::
  "world \<Rightarrow> ref \<Rightarrow> 'v PersistentKeysDict \<Rightarrow> (error + unit) \<times> 'v PersistentKeysDict" where
  "delitem w key self =
     (case checkKey w key of
        Inl e \<Rightarrow> (Inl e, self)
      | Inr _ \<Rightarrow>
          if id_of key |\<in>| fmdom (tmpdata self)
          then (Inr (), self\<lparr>tmpdata := fmdrop (id_of key) (tmpdata self)\<rparr>)
          else (case p_oid w key of
                  Inl e \<Rightarrow> (Inl e, self)
                | Inr None \<Rightarrow> (Inl KeyError, self)
                | Inr (Some i) \<Rightarrow>
                    if i |\<in>| fmdom (data self)
                    then (Inr (), self\<lparr>data := fmdrop i (data self)\<rparr>)
                    else (Inl KeyError, self)))"

definition contains :: "world \<Rightarrow> ref \<Rightarrow> 'v PersistentKeysDict \<Rightarrow> error + bool" where
  "contains w key self =
     (case checkKey w key of
        Inl e \<Rightarrow> Inl e
      | Inr _ \<Rightarrow>
          if id_of key |\<in>| fmdom (tmpdata self) then Inr True
          else (case p_oid w key of
                  Inl e \<Rightarrow> Inl e
                | Inr None \<Rightarrow> Inr False
                | Inr (Some i) \<Rightarrow> Inr (i |\<in>| fmdom (data self))))"

definition len :: "'v PersistentKeysDict \<Rightarrow> nat" where
  "len self = dict_len (data self) + dict_len (tmpdata self)"

text \<open>
  \<^verbatim>\<open>[jar.get(key) for key in self._data]\<close>: with \<^verbatim>\<open>jar\<close> being \<^verbatim>\<open>None\<close> the first call
  raises \<^verbatim>\<open>AttributeError\<close>; over an empty dictionary no call is made.
\<close>

fun resolve_all :: "world \<Rightarrow> connection option \<Rightarrow> oid list \<Rightarrow> error + ref list" where
  "resolve_all w jar [] = Inr []"
| "resolve_all w jar (key # rest) =
     (case jar of
        None \<Rightarrow> Inl AttributeError
      | Some _ \<Rightarrow>
          (case jar_get w key of
             Inl e \<Rightarrow> Inl e
           | Inr obj \<Rightarrow>
               (case resolve_all w jar rest of
                  Inl e \<Rightarrow> Inl e
                | Inr objs \<Rightarrow> Inr (obj # objs))))"

definition keys :: "world \<Rightarrow> 'v PersistentKeysDict \<Rightarrow> error + ref list" where
  "keys w self =
     (case resolve_all w (p_jar self) (dict_iter (data self)) of
        Inl e \<Rightarrow> Inl e
      | Inr objs \<Rightarrow> Inr (objs @ map fst (itervalues (tmpdata self))))"

text \<open>\<^verbatim>\<open>__iter__\<close> is a generator; the model gives the sequence it yields when run to its end.\<close>

definition iter :: "world \<Rightarrow> 'v PersistentKeysDict \<Rightarrow> error + ref list" where
  "iter w self =
     (case resolve_all w (p_jar self) (dict_iter (data self)) of
        Inl e \<Rightarrow> Inl e
      | Inr objs \<Rightarrow> Inr (objs @ map fst (itervalues (tmpdata self))))"

text \<open>
  The loop of \<^verbatim>\<open>__getstate__\<close> over \<^verbatim>\<open>self._tmpdata.itervalues()\<close>. It threads the world
  (\<^verbatim>\<open>jar.add\<close> gives the key its identifier) and \<^verbatim>\<open>data\<close>. When \<^verbatim>\<open>data[key._p_oid] = value\<close>
  runs, the key has an identifier: it had one, or \<^verbatim>\<open>jar.add\<close> has just assigned one. The case
  of \<^verbatim>\<open>None\<close> there cannot arise with \<open>jar_add\<close> and is given an error.
\<close>

fun getstate_loop ::
  "(ref \<times> 'v) list \<Rightarrow> world \<Rightarrow> (oid, 'v) fmap \<Rightarrow> error + world \<times> (oid, 'v) fmap" where
  "getstate_loop [] w d = Inr (w, d)"
| "getstate_loop ((key, val) # rest) w d =
     (case p_oid w key of
        Inl e \<Rightarrow> Inl e
      | Inr oid \<Rightarrow>
          (case (if oid = None then jar_add key w else Inr w) of
             Inl e \<Rightarrow> Inl e
           | Inr w' \<Rightarrow>
               (case p_oid w' key of
                  Inl e \<Rightarrow> Inl e
                | Inr None \<Rightarrow> Inl KeyError
                | Inr (Some i) \<Rightarrow> getstate_loop rest w' (fmupd i val d))))"

definition getstate ::
  "world \<Rightarrow> 'v PersistentKeysDict \<Rightarrow> error + world \<times> 'v PersistentKeysDict" where
  "getstate w self =
     (case p_jar self of
        None \<Rightarrow> Inl AssertionError
      | Some jar \<Rightarrow>
          (case getstate_loop (itervalues (tmpdata self)) w (data self) of
             Inl e \<Rightarrow> Inl e
           | Inr (w', d) \<Rightarrow> Inr (w', self\<lparr>data := d, tmpdata := fmempty\<rparr>)))"

section \<open>PersistentKeysSet\<close>

text \<open>The set stores \<^verbatim>\<open>None\<close> under every item; the value type is \<open>unit\<close>.\<close>

record PersistentKeysSet =
  set_data :: "unit PersistentKeysDict"

definition set_init :: PersistentKeysSet where
  "set_init = \<lparr>set_data = init\<rparr>"

definition add :: "world \<Rightarrow> ref \<Rightarrow> PersistentKeysSet \<Rightarrow> (error + unit) \<times> PersistentKeysSet" where
  "add w item self =
     (case contains w item (set_data self) of
        Inl e \<Rightarrow> (Inl e, self)
      | Inr present \<Rightarrow>
          if \<not> present
          then (case setitem w item () (set_data self) of
                  (r, d) \<Rightarrow> (r, self\<lparr>set_data := d\<rparr>))
          else (Inr (), self))"

definition remove :: "world \<Rightarrow> ref \<Rightarrow> PersistentKeysSet \<Rightarrow> (error + unit) \<times> PersistentKeysSet" where
  "remove w item self =
     (case delitem w item (set_data self) of
        (r, d) \<Rightarrow> (r, self\<lparr>set_data := d\<rparr>))"

definition set_iter :: "world \<Rightarrow> PersistentKeysSet \<Rightarrow> error + ref list" where
  "set_iter w self = iter w (set_data self)"

definition set_len :: "PersistentKeysSet \<Rightarrow> nat" where
  "set_len self = len (set_data self)"

section \<open>PersistentPairKeysDict\<close>

text \<open>
  The values of the underlying \<^verbatim>\<open>PersistentKeysDict\<close> are plain Python dictionaries, which
  \<^verbatim>\<open>__setitem__\<close> and \<^verbatim>\<open>__delitem__\<close> change in place before they store them again. They
  are objects of their own: the underlying dictionary holds references to them, and
  \<open>dicts\<close> gives the dictionary behind each reference. \<open>next_dict\<close> is the reference that
  the next \<^verbatim>\<open>{}\<close> gets.
\<close>

type_synonym dref = nat

record ('h, 'v) PersistentPairKeysDict =
  pair_data :: "dref PersistentKeysDict"
  dicts :: "dref \<Rightarrow> ('h, 'v) fmap"
  next_dict :: dref

definition pair_init :: "('h, 'v) PersistentPairKeysDict" where
  "pair_init = \<lparr>pair_data = init, dicts = (\<lambda>_. fmempty), next_dict = 0\<rparr>"

text \<open>\<^verbatim>\<open>self._data[persistent] = {}\<close>: a new dictionary object, stored by reference.\<close>

definition store_new_dict ::
  "world \<Rightarrow> ref \<Rightarrow> ('h, 'v) PersistentPairKeysDict \<Rightarrow>
   (error + unit) \<times> ('h, 'v) PersistentPairKeysDict" where
  "store_new_dict w persistent self =
     (let d = next_dict self;
          self1 = self\<lparr>dicts := (dicts self)(d := fmempty), next_dict := Suc d\<rparr>
      in case setitem w persistent d (pair_data self1) of
           (r, c) \<Rightarrow> (r, self1\<lparr>pair_data := c\<rparr>))"

definition pair_setitem ::
  "world \<Rightarrow> ref \<times> 'h \<Rightarrow> 'v \<Rightarrow> ('h, 'v) PersistentPairKeysDict \<Rightarrow>
   (error + unit) \<times> ('h, 'v) PersistentPairKeysDict" where
  "pair_setitem w key val self =
     (case key of (persistent, hashable) \<Rightarrow>
        (case contains w persistent (pair_data self) of
           Inl e \<Rightarrow> (Inl e, self)
         | Inr present \<Rightarrow>
             (case (if \<not> present then store_new_dict w persistent self else (Inr (), self)) of
                (Inl e, self1) \<Rightarrow> (Inl e, self1)
              | (Inr _, self1) \<Rightarrow>
                  (case getitem w persistent (pair_data self1) of
                     (Inl e, c) \<Rightarrow> (Inl e, self1\<lparr>pair_data := c\<rparr>)
                   | (Inr d, c) \<Rightarrow>
                       (let self2 = self1\<lparr>pair_data := c,
                                     dicts := (dicts self1)(d := fmupd hashable val (dicts self1 d))\<rparr>
                        in case setitem w persistent d (pair_data self2) of
                             (r, c') \<Rightarrow> (r, self2\<lparr>pair_data := c'\<rparr>))))))"

definition pair_getitem ::
  "world \<Rightarrow> ref \<times> 'h \<Rightarrow> ('h, 'v) PersistentPairKeysDict \<Rightarrow>
   (error + 'v) \<times> ('h, 'v) PersistentPairKeysDict" where
  "pair_getitem w key self =
     (case key of (persistent, hashable) \<Rightarrow>
        (case getitem w persistent (pair_data self) of
           (Inl e, c) \<Rightarrow> (Inl e, self\<lparr>pair_data := c\<rparr>)
         | (Inr d, c) \<Rightarrow>
             (case fmlookup (dicts self d) hashable of
                None \<Rightarrow> (Inl KeyError, self\<lparr>pair_data := c\<rparr>)
              | Some v \<Rightarrow> (Inr v, self\<lparr>pair_data := c\<rparr>))))"

definition pair_delitem ::
  "world \<Rightarrow> ref \<times> 'h \<Rightarrow> ('h, 'v) PersistentPairKeysDict \<Rightarrow>
   (error + unit) \<times> ('h, 'v) PersistentPairKeysDict" where
  "pair_delitem w key self =
     (case key of (persistent, hashable) \<Rightarrow>
        (case getitem w persistent (pair_data self) of
           (Inl e, c) \<Rightarrow> (Inl e, self\<lparr>pair_data := c\<rparr>)
         | (Inr d, c) \<Rightarrow>
             if hashable |\<notin>| fmdom (dicts self d)
             then (Inl KeyError, self\<lparr>pair_data := c\<rparr>)
             else (let self1 = self\<lparr>pair_data := c,
                                  dicts := (dicts self)(d := fmdrop hashable (dicts self d))\<rparr>
                   in if dicts self1 d \<noteq> fmempty
                      then (case setitem w persistent d (pair_data self1) of
                              (r, c') \<Rightarrow> (r, self1\<lparr>pair_data := c'\<rparr>))
                      else (case delitem w persistent (pair_data self1) of
                              (r, c') \<Rightarrow> (r, self1\<lparr>pair_data := c'\<rparr>)))))"

definition pair_contains ::
  "world \<Rightarrow> ref \<times> 'h \<Rightarrow> ('h, 'v) PersistentPairKeysDict \<Rightarrow> error + bool" where
  "pair_contains w key self =
     (case key of (persistent, hashable) \<Rightarrow>
        (case contains w persistent (pair_data self) of
           Inl e \<Rightarrow> Inl e
         | Inr False \<Rightarrow> Inr False
         | Inr True \<Rightarrow>
             (case fst (getitem w persistent (pair_data self)) of
                Inl e \<Rightarrow> Inl e
              | Inr d \<Rightarrow> Inr (hashable |\<in>| fmdom (dicts self d)))))"

text \<open>
  \<^verbatim>\<open>__iter__\<close>: the outer loop runs over the primaries that the underlying dictionary
  yields, the inner one over the dictionary stored under each.
\<close>

fun pair_iter_loop ::
  "world \<Rightarrow> ('h::linorder, 'v) PersistentPairKeysDict \<Rightarrow> ref list \<Rightarrow> error + (ref \<times> 'h) list" where
  "pair_iter_loop w self [] = Inr []"
| "pair_iter_loop w self (persistent # rest) =
     (case fst (getitem w persistent (pair_data self)) of
        Inl e \<Rightarrow> Inl e
      | Inr d \<Rightarrow>
          (case pair_iter_loop w self rest of
             Inl e \<Rightarrow> Inl e
           | Inr ys \<Rightarrow> Inr (map (Pair persistent) (dict_iter (dicts self d)) @ ys)))"

definition pair_iter ::
  "world \<Rightarrow> ('h::linorder, 'v) PersistentPairKeysDict \<Rightarrow> error + (ref \<times> 'h) list" where
  "pair_iter w self =
     (case iter w (pair_data self) of
        Inl e \<Rightarrow> Inl e
      | Inr ps \<Rightarrow> pair_iter_loop w self ps)"

section \<open>Predicates and example states\<close>

text \<open>
  A key is absent when neither partition holds it: no staging entry under its identity and,
  if it has an identifier, no persisted entry under that identifier.
\<close>

definition absent :: "world \<Rightarrow> ref \<Rightarrow> 'v PersistentKeysDict \<Rightarrow> bool" where
  "absent w key self =
     (id_of key |\<notin>| fmdom (tmpdata self) \<and>
      (case heap w key of
         Persistent (Some i) \<Rightarrow> i |\<notin>| fmdom (data self)
       | _ \<Rightarrow> True))"

text \<open>
  An example world: object 0 is not persistent (say, a string), object 1 is persistent and
  unattached, object 2 is persistent and attached under identifier 5.
\<close>

definition w_ex :: world where
  "w_ex = \<lparr>heap = (\<lambda>_. Plain)(1 := Persistent None, 2 := Persistent (Some 5)),
           next_oid = 6,
           objects = fmupd 5 2 fmempty\<rparr>"

text \<open>A container that is not attached, with object 1 staged.\<close>

definition c_staged :: "string PersistentKeysDict" where
  "c_staged = \<lparr>p_jar = None, data = fmempty, tmpdata = fmupd 1 (1, ''a'') fmempty\<rparr>"

text \<open>A container holding object 2 in both dictionaries, with different values.\<close>

definition c_both :: "string PersistentKeysDict" where
  "c_both = \<lparr>p_jar = Some Connection,
             data = fmupd 5 ''new'' fmempty,
             tmpdata = fmupd 2 (2, ''old'') fmempty\<rparr>"

text \<open>
  A pair dictionary holding \<open>(1, 7) \<mapsto> ''x''\<close>: object 1 is staged in the underlying
  dictionary with a reference to the inner dictionary \<open>{7: ''x''}\<close>.
\<close>

definition p_ex :: "(nat, string) PersistentPairKeysDict" where
  "p_ex = \<lparr>pair_data = \<lparr>p_jar = None, data = fmempty, tmpdata = fmupd 1 (1, 0) fmempty\<rparr>,
           dicts = (\<lambda>_. fmempty)(0 := fmupd 7 ''x'' fmempty),
           next_dict = 1\<rparr>"

text \<open>
  A container that was filled before it was attached: object 2 (attached, identifier 5) is
  stored while \<^verbatim>\<open>_p_jar\<close> is still \<^verbatim>\<open>None\<close>, so it is staged; then the container is added
  to the connection.
\<close>

definition c_late :: "string PersistentKeysDict" where
  "c_late = (snd (setitem w_ex 2 ''old'' init))\<lparr>p_jar := Some Connection\<rparr>"

text \<open>
  The world after object 1 has been added to the connection and given identifier 6.
\<close>

definition w_att :: world where
  "w_att = \<lparr>heap = (\<lambda>_. Plain)(1 := Persistent (Some 6), 2 := Persistent (Some 5)),
            next_oid = 7,
            objects = fmupd 6 1 (fmupd 5 2 fmempty)\<rparr>"

text \<open>
  A container that is attached from the start. Object 1 is stored in it while the object
  is unattached (\<open>c_stale\<close>); after the object has been attached it is stored again
  (\<open>c_twice\<close>).
\<close>

definition c_stale :: "string PersistentKeysDict" where
  "c_stale = snd (setitem w_ex 1 ''old'' (init\<lparr>p_jar := Some Connection\<rparr>))"

definition c_twice :: "string PersistentKeysDict" where
  "c_twice = snd (setitem w_att 1 ''new'' c_stale)"

text \<open>
  The same history for a pair dictionary whose underlying dictionary is attached from the
  start: \<open>(1, 7) \<mapsto> ''x''\<close> is stored while object 1 is unattached (\<open>p_staged\<close>); after the
  object has been attached \<open>(1, 8) \<mapsto> ''y''\<close> is stored (\<open>p_both\<close>) and both entries are
  deleted (\<open>p_final\<close>).
\<close>

definition p_staged :: "(nat, string) PersistentPairKeysDict" where
  "p_staged = snd (pair_setitem w_ex (1, 7) ''x''
                 (pair_init\<lparr>pair_data := init\<lparr>p_jar := Some Connection\<rparr>\<rparr>))"

definition p_both :: "(nat, string) PersistentPairKeysDict" where
  "p_both = snd (pair_setitem w_att (1, 8) ''y'' p_staged)"

definition p_final :: "(nat, string) PersistentPairKeysDict" where
  "p_final = snd (pair_delitem w_att (1, 8) (snd (pair_delitem w_att (1, 7) p_both)))"

text \<open>
  The contract of the backing store: an attached object has an identifier that the store
  has handed out (below \<open>next_oid\<close>) and that resolves to this object. Two objects never
  share an identifier.
\<close>

definition wf_world :: "world \<Rightarrow> bool" where
  "wf_world w =
     (\<forall>r i. heap w r = Persistent (Some i) \<longrightarrow>
        i < next_oid w \<and> fmlookup (objects w) i = Some r)"

text \<open>
  What \<^verbatim>\<open>__setitem__\<close> guarantees of every staging entry: it is filed under the identity
  of its key, and the key has passed \<^verbatim>\<open>checkKey\<close>.
\<close>

definition wf_staging :: "world \<Rightarrow> 'v PersistentKeysDict \<Rightarrow> bool" where
  "wf_staging w self =
     (\<forall>i key val. fmlookup (tmpdata self) i = Some (key, val) \<longrightarrow>
        i = id_of key \<and> hasattr_p_oid w key)"

text \<open>
  An attached container with a persisted entry and two staged ones: object 1, not yet
  attached, and object 2, attached under identifier 5.
\<close>

definition c_flush :: "string PersistentKeysDict" where
  "c_flush = \<lparr>p_jar = Some Connection,
              data = fmupd 4 ''z'' fmempty,
              tmpdata = fmupd 1 (1, ''a'') (fmupd 2 (2, ''b'') fmempty)\<rparr>"

text \<open>
  An attached container with object 2 persisted (identifier 5) and object 1 staged.
\<close>

definition c_keys :: "string PersistentKeysDict" where
  "c_keys = \<lparr>p_jar = Some Connection,
             data = fmupd 5 ''b'' fmempty,
             tmpdata = fmupd 1 (1, ''a'') fmempty\<rparr>"

section \<open>Properties of PersistentKeysDict\<close>

lemmas store_defs =
  setitem_def getitem_def delitem_def contains_def checkKey_def hasattr_p_oid_def p_oid_def
  id_of_def

lemma contains_after_setitem:
  "setitem w k v c = (Inr u, c') \<Longrightarrow> contains w k c' = Inr True"
  by (auto simp: store_defs split: pyobj.splits option.splits if_splits)

lemma getitem_state: "snd (getitem w k c) = c"
  by (auto simp: store_defs split: pyobj.splits option.splits if_splits)

lemma setitem_ok: "hasattr_p_oid w k \<Longrightarrow> fst (setitem w k v c) = Inr ()"
  by (auto simp: store_defs split: pyobj.splits option.splits if_splits)

lemma contains_ok: "contains w k c = Inr b \<Longrightarrow> hasattr_p_oid w k"
  by (auto simp: store_defs split: pyobj.splits option.splits if_splits)

lemma getitem_ok: "getitem w k c = (Inr v, c') \<Longrightarrow> hasattr_p_oid w k"
  by (auto simp: store_defs split: pyobj.splits option.splits if_splits)

lemma getitem_after_contains:
  "contains w k c = Inr True \<Longrightarrow> \<exists>v. getitem w k c = (Inr v, c)"
  by (auto simp: store_defs fmlookup_dom_iff split: pyobj.splits option.splits if_splits)

lemma delitem_after_getitem:
  "getitem w k c = (Inr v, c') \<Longrightarrow> fst (delitem w k c) = Inr ()"
  by (auto simp: store_defs fmlookup_dom_iff split: pyobj.splits option.splits if_splits)

lemma setitem_getitem_staged:
  assumes "hasattr_p_oid w k" and "p_oid w k = Inr None \<or> p_jar c = None"
  shows "fst (getitem w k (snd (setitem w k v c))) = Inr v"
  using assms
  by (auto simp: store_defs split: pyobj.splits option.splits if_splits)

lemma setitem_getitem_persisted:
  assumes "p_oid w k = Inr (Some i)" and "p_jar c \<noteq> None"
    and "id_of k |\<notin>| fmdom (tmpdata c)"
  shows "fst (getitem w k (snd (setitem w k v c))) = Inr v"
  using assms
  by (auto simp: store_defs split: pyobj.splits option.splits if_splits)

lemma c_late_eq:
  "c_late = \<lparr>p_jar = Some Connection, data = fmempty, tmpdata = fmupd 2 (2, ''old'') fmempty\<rparr>"
  by (simp add: c_late_def store_defs w_ex_def init_def)

lemma w_att_reached: "jar_add 1 w_ex = Inr w_att"
  by (simp add: jar_add_def w_ex_def w_att_def fun_eq_iff)

lemma c_stale_eq:
  "c_stale = \<lparr>p_jar = Some Connection, data = fmempty, tmpdata = fmupd 1 (1, ''old'') fmempty\<rparr>"
  by (simp add: c_stale_def store_defs w_ex_def init_def)

lemma c_twice_eq:
  "c_twice = \<lparr>p_jar = Some Connection,
              data = fmupd 6 ''new'' fmempty,
              tmpdata = fmupd 1 (1, ''old'') fmempty\<rparr>"
  by (simp add: c_twice_def c_stale_eq store_defs w_att_def)

text \<open>
  C1. \<^verbatim>\<open>__setitem__\<close> does not always overwrite. First history: the container is attached;
  object 1 is stored while it is unattached (the entry is staged), the object is added to
  the connection, and it is stored again. Second history: object 2 is attached; it is
  stored while the container is unattached (staged again), the container is added to the
  connection, and the object is stored again. In both, the second \<^verbatim>\<open>__setitem__\<close> writes to
  \<^verbatim>\<open>_data\<close> and leaves the staging entry: the key is in both dictionaries, \<^verbatim>\<open>__getitem__\<close>
  answers with the first value and \<^verbatim>\<open>__len__\<close> counts the key twice.
\<close>

theorem setitem_keeps_stale_staging_entry:
  "fst (setitem w_ex 1 ''old'' (init\<lparr>p_jar := Some Connection\<rparr>)) = Inr ()
   \<and> jar_add 1 w_ex = Inr w_att
   \<and> fst (setitem w_att 1 ''new'' c_stale) = Inr ()
   \<and> fmlookup (tmpdata c_twice) (id_of 1) = Some (1, ''old'')
   \<and> p_oid w_att 1 = Inr (Some 6)
   \<and> fmlookup (data c_twice) 6 = Some ''new''
   \<and> fst (getitem w_att 1 c_twice) = Inr ''old''
   \<and> len c_twice = 2
   \<and> setitem w_ex 2 ''new'' c_late = (Inr (), c_both)
   \<and> fmlookup (tmpdata c_both) (id_of 2) = Some (2, ''old'')
   \<and> p_oid w_ex 2 = Inr (Some 5)
   \<and> fmlookup (data c_both) 5 = Some ''new''
   \<and> fst (getitem w_ex 2 c_both) = Inr ''old''
   \<and> len c_both = 2"
proof -
  have a1: "fst (setitem w_ex 1 ''old'' (init\<lparr>p_jar := Some Connection\<rparr>)) = Inr ()"
    by (simp add: store_defs w_ex_def)
  have a2: "fst (setitem w_att 1 ''new'' c_stale) = Inr ()"
    by (simp add: store_defs w_att_def)
  have a3: "fmlookup (tmpdata c_twice) (id_of 1) = Some (1, ''old'')"
    by (simp add: c_twice_eq id_of_def)
  have a4: "p_oid w_att 1 = Inr (Some 6)"
    by (simp add: p_oid_def w_att_def)
  have a5: "fmlookup (data c_twice) 6 = Some ''new''"
    by (simp add: c_twice_eq)
  have a6: "fst (getitem w_att 1 c_twice) = Inr ''old''"
    by (simp add: c_twice_eq store_defs w_att_def)
  have a7: "len c_twice = 2"
    by (simp add: c_twice_eq len_def dict_len_def fcard_finsert_if)
  have 1: "setitem w_ex 2 ''new'' c_late = (Inr (), c_both)"
    by (simp add: c_late_eq store_defs w_ex_def c_both_def)
  have 2: "fmlookup (tmpdata c_both) (id_of 2) = Some (2, ''old'')"
    by (simp add: c_both_def id_of_def)
  have 3: "p_oid w_ex 2 = Inr (Some 5)"
    by (simp add: p_oid_def w_ex_def)
  have 4: "fmlookup (data c_both) 5 = Some ''new''"
    by (simp add: c_both_def)
  have 5: "fst (getitem w_ex 2 c_both) = Inr ''old''"
    by (simp add: store_defs w_ex_def c_both_def)
  have 6: "len c_both = 2"
    by (simp add: len_def dict_len_def c_both_def fcard_finsert_if)
  from a1 w_att_reached a2 a3 a4 a5 a6 a7 1 2 3 4 5 6 show ?thesis
    by (intro conjI)
qed

text \<open>
  C3. \<^verbatim>\<open>__setitem__\<close> followed at once by \<^verbatim>\<open>__getitem__\<close> does not always return the value
  just stored. Object 1 is attached and so is the container, so the value goes to \<^verbatim>\<open>_data\<close>;
  the container still holds the staging entry made while the object was unattached, and
  \<^verbatim>\<open>__getitem__\<close> reads that one.
\<close>

theorem setitem_then_getitem_stale:
  "p_oid w_att 1 = Inr (Some 6)
   \<and> p_jar c_stale = Some Connection
   \<and> fst (setitem w_att 1 ''new'' c_stale) = Inr ()
   \<and> fst (getitem w_att 1 (snd (setitem w_att 1 ''new'' c_stale))) = Inr ''old''"
proof -
  have 1: "p_oid w_att 1 = Inr (Some 6)"
    by (simp add: p_oid_def w_att_def)
  have 2: "p_jar c_stale = Some Connection"
    by (simp add: c_stale_eq)
  have 3: "fst (setitem w_att 1 ''new'' c_stale) = Inr ()"
    by (simp add: store_defs w_att_def)
  have 4: "fst (getitem w_att 1 (snd (setitem w_att 1 ''new'' c_stale))) = Inr ''old''"
    by (simp add: c_stale_eq store_defs w_att_def)
  from 1 2 3 4 show ?thesis
    by (intro conjI)
qed

text \<open>
  C7. A key without the \<^verbatim>\<open>_p_oid\<close> attribute is refused by \<^verbatim>\<open>__setitem__\<close>,
  \<^verbatim>\<open>__getitem__\<close>, \<^verbatim>\<open>__delitem__\<close> and \<^verbatim>\<open>__contains__\<close> with \<^verbatim>\<open>TypeError\<close> (the spec's
  InvalidKey), whatever the container holds, and the container is left as it was.
\<close>

theorem invalid_key_rejected:
  assumes "\<not> hasattr_p_oid w k"
  shows "setitem w k v c = (Inl TypeError, c)
       \<and> getitem w k c = (Inl TypeError, c)
       \<and> delitem w k c = (Inl TypeError, c)
       \<and> contains w k c = Inl TypeError"
  using assms
  by (simp add: setitem_def getitem_def delitem_def contains_def checkKey_def)

theorem invalid_key_rejected_witness:
  "\<not> hasattr_p_oid w_ex 0
   \<and> setitem w_ex 0 ''b'' c_staged = (Inl TypeError, c_staged)
   \<and> getitem w_ex 0 c_staged = (Inl TypeError, c_staged)
   \<and> delitem w_ex 0 c_staged = (Inl TypeError, c_staged)
   \<and> contains w_ex 0 c_staged = Inl TypeError"
proof -
  have h: "\<not> hasattr_p_oid w_ex 0"
    by (simp add: hasattr_p_oid_def w_ex_def)
  from invalid_key_rejected [OF h, of "''b''" c_staged] h show ?thesis
    by simp
qed

text \<open>
  C4. \<^verbatim>\<open>__getstate__\<close> on a container whose \<^verbatim>\<open>_p_jar\<close> is \<^verbatim>\<open>None\<close> fails on its assertion
  (the spec's IllegalState), whatever the container holds.
\<close>

theorem getstate_unattached_fails:
  assumes "p_jar c = None"
  shows "getstate w c = Inl AssertionError"
  using assms by (simp add: getstate_def)

theorem getstate_unattached_fails_witness:
  "p_jar c_staged = None \<and> tmpdata c_staged \<noteq> fmempty
   \<and> getstate w_ex c_staged = Inl AssertionError"
proof -
  have h: "p_jar c_staged = None"
    by (simp add: c_staged_def)
  have "fmlookup (tmpdata c_staged) 1 \<noteq> fmlookup fmempty 1"
    by (simp add: c_staged_def)
  then have "tmpdata c_staged \<noteq> fmempty"
    by metis
  with getstate_unattached_fails [OF h, of w_ex] h show ?thesis
    by simp
qed

text \<open>
  C6. For a persistent key that neither dictionary holds, \<^verbatim>\<open>__getitem__\<close> and
  \<^verbatim>\<open>__delitem__\<close> raise \<^verbatim>\<open>KeyError\<close> (the spec's KeyNotFound). The staging dictionary is
  tried first: a key with a staging entry is answered from that entry, whatever the
  persisted dictionary holds.
\<close>

theorem absent_key_not_found:
  assumes "hasattr_p_oid w k"
  shows "(absent w k c \<longrightarrow>
            getitem w k c = (Inl KeyError, c) \<and> delitem w k c = (Inl KeyError, c))
       \<and> (\<forall>k' v. fmlookup (tmpdata c) (id_of k) = Some (k', v) \<longrightarrow>
            getitem w k c = (Inr v, c)
          \<and> delitem w k c = (Inr (), c\<lparr>tmpdata := fmdrop (id_of k) (tmpdata c)\<rparr>))"
  using assms
  by (auto simp: store_defs absent_def fmlookup_dom_iff split: pyobj.splits option.splits)

theorem absent_key_not_found_witness:
  "hasattr_p_oid w_ex 2
   \<and> absent w_ex 2 c_staged
   \<and> getitem w_ex 2 c_staged = (Inl KeyError, c_staged)
   \<and> delitem w_ex 2 c_staged = (Inl KeyError, c_staged)
   \<and> fmlookup (tmpdata c_both) (id_of 2) = Some (2, ''old'')
   \<and> fmlookup (data c_both) 5 = Some ''new''
   \<and> getitem w_ex 2 c_both = (Inr ''old'', c_both)
   \<and> delitem w_ex 2 c_both = (Inr (), c_both\<lparr>tmpdata := fmdrop (id_of 2) (tmpdata c_both)\<rparr>)"
proof -
  have h: "hasattr_p_oid w_ex 2"
    by (simp add: hasattr_p_oid_def w_ex_def)
  have a: "absent w_ex 2 c_staged"
    by (simp add: absent_def w_ex_def c_staged_def id_of_def)
  have l: "fmlookup (tmpdata c_both) (id_of 2) = Some (2, ''old'')"
    by (simp add: c_both_def id_of_def)
  have d: "fmlookup (data c_both) 5 = Some ''new''"
    by (simp add: c_both_def)
  from absent_key_not_found [OF h, of c_staged] a
  have 1: "getitem w_ex 2 c_staged = (Inl KeyError, c_staged)
         \<and> delitem w_ex 2 c_staged = (Inl KeyError, c_staged)"
    by blast
  from absent_key_not_found [OF h, of c_both] l
  have 2: "getitem w_ex 2 c_both = (Inr ''old'', c_both)
         \<and> delitem w_ex 2 c_both = (Inr (), c_both\<lparr>tmpdata := fmdrop (id_of 2) (tmpdata c_both)\<rparr>)"
    by blast
  from h a l d 1 2 show ?thesis
    by blast
qed

section \<open>Properties of PersistentKeysSet\<close>

text \<open>
  C9. \<^verbatim>\<open>add\<close> is idempotent. For a persistent item, adding it to a set that already
  contains it changes nothing; after one \<^verbatim>\<open>add\<close> the set contains the item, so a second
  \<^verbatim>\<open>add\<close> right after the first leaves the set, and with it \<^verbatim>\<open>__len__\<close>, as the first
  left it.
\<close>

theorem add_idempotent:
  assumes "hasattr_p_oid w x"
  shows "(contains w x (set_data s) = Inr True \<longrightarrow> add w x s = (Inr (), s))
       \<and> contains w x (set_data (snd (add w x s))) = Inr True
       \<and> add w x (snd (add w x s)) = (Inr (), snd (add w x s))
       \<and> set_len (snd (add w x (snd (add w x s)))) = set_len (snd (add w x s))"
  using assms
  by (auto simp: add_def store_defs split: pyobj.splits option.splits if_splits)

theorem add_idempotent_witness:
  "hasattr_p_oid w_ex 1
   \<and> contains w_ex 1 (set_data (snd (add w_ex 1 set_init))) = Inr True
   \<and> add w_ex 1 (snd (add w_ex 1 set_init)) = (Inr (), snd (add w_ex 1 set_init))
   \<and> set_len (snd (add w_ex 1 set_init)) = 1
   \<and> set_len (snd (add w_ex 1 (snd (add w_ex 1 set_init)))) = 1"
proof -
  have h: "hasattr_p_oid w_ex 1"
    by (simp add: hasattr_p_oid_def w_ex_def)
  have n: "set_len (snd (add w_ex 1 set_init)) = 1"
    by (simp add: add_def store_defs set_init_def init_def w_ex_def set_len_def len_def
        dict_len_def fcard_finsert_if)
  from add_idempotent [OF h, of set_init] h n show ?thesis
    by simp
qed

section \<open>Properties of PersistentPairKeysDict\<close>

lemma getitem_after_setitem_absent:
  "contains w k c = Inr False \<Longrightarrow>
   getitem w k (snd (setitem w k v c)) = (Inr v, snd (setitem w k v c))"
  by (auto simp: store_defs fmlookup_dom_iff split: pyobj.splits option.splits if_splits)

lemma store_new_dict_getitem:
  assumes "contains w p (pair_data s) = Inr False"
  shows "\<exists>s1. store_new_dict w p s = (Inr (), s1)
            \<and> getitem w p (pair_data s1) = (Inr (next_dict s), pair_data s1)"
proof -
  let ?s0 = "s\<lparr>dicts := (dicts s)(next_dict s := fmempty), next_dict := Suc (next_dict s)\<rparr>"
  have h: "hasattr_p_oid w p" using assms by (rule contains_ok)
  have c: "contains w p (pair_data ?s0) = Inr False" using assms by simp
  obtain r c' where sc: "setitem w p (next_dict s) (pair_data ?s0) = (r, c')"
    by (cases "setitem w p (next_dict s) (pair_data ?s0)")
  from setitem_ok[OF h, of "next_dict s" "pair_data ?s0"] sc have r: "r = Inr ()" by simp
  from getitem_after_setitem_absent[OF c, of "next_dict s"] sc
  have g: "getitem w p c' = (Inr (next_dict s), c')" by simp
  show ?thesis using sc r g
    by (simp add: store_new_dict_def Let_def)
qed

lemma pair_setitem_ok:
  assumes "contains w p (pair_data s) = Inr b"
  shows "fst (pair_setitem w (p, h) v s) = Inr ()"
proof -
  have hp: "hasattr_p_oid w p" using assms by (rule contains_ok)
  show ?thesis
  proof (cases b)
    case True
    with assms have "contains w p (pair_data s) = Inr True" by simp
    from getitem_after_contains[OF this] obtain d where
      g: "getitem w p (pair_data s) = (Inr d, pair_data s)" by blast
    obtain r c' where sc: "setitem w p d (pair_data s) = (r, c')"
      by (cases "setitem w p d (pair_data s)")
    with setitem_ok[OF hp, of d "pair_data s"] have "r = Inr ()" by simp
    with assms True g sc show ?thesis
      by (simp add: pair_setitem_def Let_def)
  next
    case False
    with assms have "contains w p (pair_data s) = Inr False" by simp
    from store_new_dict_getitem[OF this] obtain s1 where
      n: "store_new_dict w p s = (Inr (), s1)" and
      g: "getitem w p (pair_data s1) = (Inr (next_dict s), pair_data s1)" by blast
    obtain r c' where sc: "setitem w p (next_dict s) (pair_data s1) = (r, c')"
      by (cases "setitem w p (next_dict s) (pair_data s1)")
    with setitem_ok[OF hp, of "next_dict s" "pair_data s1"] have "r = Inr ()" by simp
    with assms False n g sc show ?thesis
      by (simp add: pair_setitem_def Let_def)
  qed
qed

lemma pair_setitem_atomic:
  assumes "fst (pair_setitem w pk v P) = Inl e"
  shows "snd (pair_setitem w pk v P) = P"
proof (cases pk)
  case (Pair p h)
  show ?thesis
  proof (cases "contains w p (pair_data P)")
    case (Inl e')
    with Pair show ?thesis by (simp add: pair_setitem_def)
  next
    case (Inr b)
    from pair_setitem_ok[OF this, of h v] assms Pair show ?thesis by simp
  qed
qed

lemma pair_getitem_atomic:
  "fst (pair_getitem w pk P) = Inl e \<Longrightarrow> snd (pair_getitem w pk P) = P"
proof (cases pk)
  case (Pair p h)
  obtain r c where g: "getitem w p (pair_data P) = (r, c)" by (cases "getitem w p (pair_data P)")
  with getitem_state[of w p "pair_data P"] have "c = pair_data P" by simp
  with g Pair show ?thesis
    by (cases r) (auto simp: pair_getitem_def split: option.splits)
qed

lemma pair_delitem_atomic:
  assumes "fst (pair_delitem w pk P) = Inl e"
  shows "snd (pair_delitem w pk P) = P"
proof (cases pk)
  case (Pair p h)
  obtain r c where g: "getitem w p (pair_data P) = (r, c)" by (cases "getitem w p (pair_data P)")
  with getitem_state[of w p "pair_data P"] have c: "c = pair_data P" by simp
  show ?thesis
  proof (cases r)
    case (Inl e')
    with g c Pair show ?thesis by (simp add: pair_delitem_def)
  next
    case (Inr d)
    with g c have gd: "getitem w p (pair_data P) = (Inr d, pair_data P)" by simp
    then have hp: "hasattr_p_oid w p" by (rule getitem_ok)
    show ?thesis
    proof (cases "h |\<in>| fmdom (dicts P d)")
      case False
      with gd Pair show ?thesis by (simp add: pair_delitem_def)
    next
      case True
      let ?P1 = "P\<lparr>pair_data := pair_data P, dicts := (dicts P)(d := fmdrop h (dicts P d))\<rparr>"
      from setitem_ok[OF hp, of d "pair_data P"]
      have s: "fst (setitem w p d (pair_data P)) = Inr ()" .
      from delitem_after_getitem[OF gd]
      have dl: "fst (delitem w p (pair_data P)) = Inr ()" .
      have "fst (pair_delitem w (p, h) P) = Inr ()"
        using gd True s dl
        by (auto simp: pair_delitem_def Let_def split: prod.splits)
      with assms Pair show ?thesis by simp
    qed
  qed
qed

lemma p_ex_reached: "pair_setitem w_ex (1, 7) ''x'' pair_init = (Inr (), p_ex)"
  by (simp add: pair_setitem_def store_new_dict_def store_defs pair_init_def init_def w_ex_def
      p_ex_def Let_def)

text \<open>
  C10. A raising call changes nothing. Whenever \<^verbatim>\<open>__setitem__\<close>, \<^verbatim>\<open>__getitem__\<close> or
  \<^verbatim>\<open>__delitem__\<close> of \<^verbatim>\<open>PersistentKeysDict\<close> or of \<^verbatim>\<open>PersistentPairKeysDict\<close> raises, the
  container (both dictionaries, and for the pair dictionary every inner dictionary) is as it
  was before the call: the key check and the failing lookup come before any assignment, and
  the calls that follow an assignment cannot raise.
\<close>

theorem failing_operation_atomic:
  "(fst (setitem w k v c) = Inl e \<longrightarrow> snd (setitem w k v c) = c)
 \<and> (fst (getitem w k c) = Inl e \<longrightarrow> snd (getitem w k c) = c)
 \<and> (fst (delitem w k c) = Inl e \<longrightarrow> snd (delitem w k c) = c)
 \<and> (fst (pair_setitem w pk x P) = Inl e \<longrightarrow> snd (pair_setitem w pk x P) = P)
 \<and> (fst (pair_getitem w pk P) = Inl e \<longrightarrow> snd (pair_getitem w pk P) = P)
 \<and> (fst (pair_delitem w pk P) = Inl e \<longrightarrow> snd (pair_delitem w pk P) = P)"
proof -
  have 1: "fst (setitem w k v c) = Inl e \<longrightarrow> snd (setitem w k v c) = c"
    by (auto simp: store_defs split: pyobj.splits option.splits if_splits)
  have 2: "fst (getitem w k c) = Inl e \<longrightarrow> snd (getitem w k c) = c"
    by (simp add: getitem_state)
  have 3: "fst (delitem w k c) = Inl e \<longrightarrow> snd (delitem w k c) = c"
    by (auto simp: store_defs split: pyobj.splits option.splits if_splits)
  have 4: "fst (pair_setitem w pk x P) = Inl e \<longrightarrow> snd (pair_setitem w pk x P) = P"
    by (simp add: pair_setitem_atomic)
  have 5: "fst (pair_getitem w pk P) = Inl e \<longrightarrow> snd (pair_getitem w pk P) = P"
    by (simp add: pair_getitem_atomic)
  have 6: "fst (pair_delitem w pk P) = Inl e \<longrightarrow> snd (pair_delitem w pk P) = P"
    by (simp add: pair_delitem_atomic)
  from 1 2 3 4 5 6 show ?thesis
    by (intro conjI)
qed

theorem failing_operation_atomic_witness:
  "fst (setitem w_ex 0 ''b'' c_staged) = Inl TypeError
   \<and> snd (setitem w_ex 0 ''b'' c_staged) = c_staged
   \<and> fst (getitem w_ex 2 c_staged) = Inl KeyError
   \<and> snd (getitem w_ex 2 c_staged) = c_staged
   \<and> fst (delitem w_ex 2 c_staged) = Inl KeyError
   \<and> snd (delitem w_ex 2 c_staged) = c_staged
   \<and> fst (pair_setitem w_ex (0, 7) ''y'' p_ex) = Inl TypeError
   \<and> snd (pair_setitem w_ex (0, 7) ''y'' p_ex) = p_ex
   \<and> fst (pair_getitem w_ex (1, 9) p_ex) = Inl KeyError
   \<and> snd (pair_getitem w_ex (1, 9) p_ex) = p_ex
   \<and> fst (pair_delitem w_ex (1, 9) p_ex) = Inl KeyError
   \<and> snd (pair_delitem w_ex (1, 9) p_ex) = p_ex"
proof -
  have a1: "fst (setitem w_ex 0 ''b'' c_staged) = Inl TypeError"
    by (simp add: store_defs w_ex_def)
  have a2: "fst (getitem w_ex 2 c_staged) = Inl KeyError"
    by (simp add: store_defs w_ex_def c_staged_def)
  have a3: "fst (delitem w_ex 2 c_staged) = Inl KeyError"
    by (simp add: store_defs w_ex_def c_staged_def)
  have a4: "fst (pair_setitem w_ex (0, 7) ''y'' p_ex) = Inl TypeError"
    by (simp add: pair_setitem_def contains_def checkKey_def hasattr_p_oid_def w_ex_def)
  have a5: "fst (pair_getitem w_ex (1, 9) p_ex) = Inl KeyError"
    by (simp add: pair_getitem_def store_defs w_ex_def p_ex_def)
  have a6: "fst (pair_delitem w_ex (1, 9) p_ex) = Inl KeyError"
    by (simp add: pair_delitem_def store_defs w_ex_def p_ex_def)
  note t = failing_operation_atomic [of w_ex 0 "''b''" c_staged TypeError "(0, 7)" "''y''" p_ex]
  note k = failing_operation_atomic [of w_ex 2 "''b''" c_staged KeyError "(1, 9)" "''y''" p_ex]
  from t a1 have 1: "snd (setitem w_ex 0 ''b'' c_staged) = c_staged" by simp
  from k a2 have 2: "snd (getitem w_ex 2 c_staged) = c_staged" by simp
  from k a3 have 3: "snd (delitem w_ex 2 c_staged) = c_staged" by simp
  from t a4 have 4: "snd (pair_setitem w_ex (0, 7) ''y'' p_ex) = p_ex" by simp
  from k a5 have 5: "snd (pair_getitem w_ex (1, 9) p_ex) = p_ex" by simp
  from k a6 have 6: "snd (pair_delitem w_ex (1, 9) p_ex) = p_ex" by simp
  from a1 a2 a3 a4 a5 a6 1 2 3 4 5 6 show ?thesis
    by (intro conjI)
qed

text \<open>
  Where the primary is in one dictionary only, deleting its last pair does remove it:
  \<^verbatim>\<open>__delitem__\<close> empties the inner dictionary and the underlying dictionary no longer
  contains the primary.
\<close>

lemma pair_delitem_last_removes_primary:
  assumes g: "getitem w p (pair_data P) = (Inr d, pair_data P)"
    and h: "h |\<in>| fmdom (dicts P d)"
    and l: "fmdrop h (dicts P d) = fmempty"
    and one: "id_of p |\<notin>| fmdom (tmpdata (pair_data P))
              \<or> (\<forall>i. p_oid w p = Inr (Some i) \<longrightarrow> i |\<notin>| fmdom (data (pair_data P)))"
  shows "pair_delitem w (p, h) P =
           (Inr (), P\<lparr>pair_data := snd (delitem w p (pair_data P)),
                      dicts := (dicts P)(d := fmempty)\<rparr>)
       \<and> contains w p (snd (delitem w p (pair_data P))) = Inr False"
proof -
  from delitem_after_getitem[OF g] have ok: "fst (delitem w p (pair_data P)) = Inr ()" .
  have 1: "pair_delitem w (p, h) P =
           (Inr (), P\<lparr>pair_data := snd (delitem w p (pair_data P)),
                      dicts := (dicts P)(d := fmempty)\<rparr>)"
    using g h l ok by (auto simp: pair_delitem_def Let_def split: prod.splits)
  have 2: "contains w p (snd (delitem w p (pair_data P))) = Inr False"
    using g one
    by (auto simp: store_defs fmlookup_dom_iff split: pyobj.splits option.splits if_splits)
  from 1 2 show ?thesis ..
qed

text \<open>
  C5. A primary can stay behind with an empty inner dictionary. The underlying dictionary
  is attached. A pair under object 1 is stored while the object is unattached, so the
  reference to its inner dictionary is staged. After the object has been attached, a second
  pair under object 1 makes \<^verbatim>\<open>__setitem__\<close> store the same inner dictionary in \<^verbatim>\<open>_data\<close> as
  well. Deleting both pairs empties the inner dictionary and removes the staging entry
  only: the underlying dictionary still yields object 1, and the dictionary stored under it
  is empty.
\<close>

theorem pair_delitem_keeps_empty_inner_dict:
  "fst (pair_setitem w_ex (1, 7::nat) ''x''
          (pair_init\<lparr>pair_data := init\<lparr>p_jar := Some Connection\<rparr>\<rparr>)) = Inr ()
   \<and> jar_add 1 w_ex = Inr w_att
   \<and> fst (pair_setitem w_att (1, 8) ''y'' p_staged) = Inr ()
   \<and> fmlookup (tmpdata (pair_data p_both)) (id_of 1) = Some (1, 0)
   \<and> fmlookup (data (pair_data p_both)) 6 = Some 0
   \<and> fst (pair_delitem w_att (1, 7) p_both) = Inr ()
   \<and> fst (pair_delitem w_att (1, 8) (snd (pair_delitem w_att (1, 7) p_both))) = Inr ()
   \<and> pair_contains w_att (1, 7) p_final = Inr False
   \<and> pair_contains w_att (1, 8) p_final = Inr False
   \<and> iter w_att (pair_data p_final) = Inr [1]
   \<and> fst (getitem w_att 1 (pair_data p_final)) = Inr 0
   \<and> dicts p_final 0 = fmempty
   \<and> pair_iter w_att p_final = Inr []"
proof -
  have 1: "fst (pair_setitem w_ex (1, 7::nat) ''x''
          (pair_init\<lparr>pair_data := init\<lparr>p_jar := Some Connection\<rparr>\<rparr>)) = Inr ()"
    by code_simp
  have 2: "fst (pair_setitem w_att (1, 8) ''y'' p_staged) = Inr ()"
    by code_simp
  have 3: "fmlookup (tmpdata (pair_data p_both)) (id_of 1) = Some (1, 0)"
    by code_simp
  have 4: "fmlookup (data (pair_data p_both)) 6 = Some 0"
    by code_simp
  have 5: "fst (pair_delitem w_att (1, 7) p_both) = Inr ()"
    by code_simp
  have 6: "fst (pair_delitem w_att (1, 8) (snd (pair_delitem w_att (1, 7) p_both))) = Inr ()"
    by code_simp
  have 7: "pair_contains w_att (1, 7) p_final = Inr False"
    by code_simp
  have 8: "pair_contains w_att (1, 8) p_final = Inr False"
    by code_simp
  have 9: "iter w_att (pair_data p_final) = Inr [1]"
    by code_simp
  have 10: "fst (getitem w_att 1 (pair_data p_final)) = Inr 0"
    by code_simp
  have 11: "dicts p_final 0 = fmempty"
    by code_simp
  have 12: "pair_iter w_att p_final = Inr []"
    by code_simp
  from 1 w_att_reached 2 3 4 5 6 7 8 9 10 11 12 show ?thesis
    by (intro conjI)
qed

section \<open>Properties of \<^verbatim>\<open>__getstate__\<close>\<close>

lemma jar_add_wf:
  assumes "wf_world w" "jar_add k w = Inr w1"
  shows "wf_world w1"
proof (cases "heap w k")
  case Plain
  with assms(2) show ?thesis by (simp add: jar_add_def)
next
  case (Persistent oid)
  show ?thesis
  proof (cases oid)
    case (Some j)
    with Persistent assms show ?thesis by (simp add: jar_add_def)
  next
    case None
    with Persistent assms(2) have w1: "w1 = w\<lparr>heap := (heap w)(k := Persistent (Some (next_oid w))),
                 objects := fmupd (next_oid w) k (objects w),
                 next_oid := Suc (next_oid w)\<rparr>"
      by (simp add: jar_add_def)
    show ?thesis
      unfolding wf_world_def
    proof (intro allI impI)
      fix r i assume a: "heap w1 r = Persistent (Some i)"
      show "i < next_oid w1 \<and> fmlookup (objects w1) i = Some r"
      proof (cases "r = k")
        case True
        with a w1 show ?thesis by simp
      next
        case False
        with a w1 have "heap w r = Persistent (Some i)" by simp
        with assms(1) have "i < next_oid w" "fmlookup (objects w) i = Some r"
          by (simp_all add: wf_world_def)
        with w1 show ?thesis by simp
      qed
    qed
  qed
qed

lemma flush_step:
  assumes "wf_world w" "hasattr_p_oid w k"
  shows "\<exists>w1 i. getstate_loop ((k, v) # rest) w d = getstate_loop rest w1 (fmupd i v d)
        \<and> wf_world w1 \<and> heap w1 k = Persistent (Some i)
        \<and> (\<forall>r. r \<noteq> k \<longrightarrow> heap w1 r = heap w r)
        \<and> (\<forall>j. heap w k = Persistent (Some j) \<longrightarrow> j = i)"
proof (cases "heap w k")
  case Plain
  with assms(2) show ?thesis by (simp add: hasattr_p_oid_def)
next
  case (Persistent oid)
  show ?thesis
  proof (cases oid)
    case None
    let ?w1 = "w\<lparr>heap := (heap w)(k := Persistent (Some (next_oid w))),
                 objects := fmupd (next_oid w) k (objects w),
                 next_oid := Suc (next_oid w)\<rparr>"
    have a: "jar_add k w = Inr ?w1"
      using Persistent None by (simp add: jar_add_def)
    have wf: "wf_world ?w1" using jar_add_wf[OF assms(1) a] .
    have "getstate_loop ((k, v) # rest) w d = getstate_loop rest ?w1 (fmupd (next_oid w) v d)"
      using Persistent None a by (simp add: p_oid_def)
    with wf Persistent None show ?thesis
      by (intro exI[of _ ?w1] exI[of _ "next_oid w"]) simp
  next
    case (Some j)
    have "getstate_loop ((k, v) # rest) w d = getstate_loop rest w (fmupd j v d)"
      using Persistent Some by (simp add: p_oid_def)
    with assms(1) Persistent Some show ?thesis
      by (intro exI[of _ w] exI[of _ j]) simp
  qed
qed

lemma getstate_loop_correct:
  assumes "wf_world w" "distinct (map fst xs)" "\<forall>k \<in> fst ` set xs. hasattr_p_oid w k"
  shows "\<exists>w' d'. getstate_loop xs w d = Inr (w', d') \<and> wf_world w'
     \<and> (\<forall>r. r \<notin> fst ` set xs \<longrightarrow> heap w' r = heap w r)
     \<and> (\<forall>r i. heap w r = Persistent (Some i) \<longrightarrow> heap w' r = Persistent (Some i))
     \<and> (\<forall>k v. (k, v) \<in> set xs \<longrightarrow> (\<exists>i. heap w' k = Persistent (Some i) \<and> fmlookup d' i = Some v))
     \<and> (\<forall>i. (\<forall>k \<in> fst ` set xs. heap w' k \<noteq> Persistent (Some i)) \<longrightarrow> fmlookup d' i = fmlookup d i)"
  using assms
proof (induction xs arbitrary: w d)
  case Nil
  then show ?case by simp
next
  case (Cons x xs)
  obtain k v where x: "x = (k, v)" by (cases x)
  from Cons.prems x have hk: "hasattr_p_oid w k" by simp
  from flush_step[OF Cons.prems(1) hk, of v xs d] obtain w1 i where
    s: "getstate_loop ((k, v) # xs) w d = getstate_loop xs w1 (fmupd i v d)"
    and wf1: "wf_world w1" and hk1: "heap w1 k = Persistent (Some i)"
    and oth: "\<forall>r. r \<noteq> k \<longrightarrow> heap w1 r = heap w r"
    and keep: "\<forall>j. heap w k = Persistent (Some j) \<longrightarrow> j = i"
    by blast
  from Cons.prems x have knot: "k \<notin> fst ` set xs" and dist: "distinct (map fst xs)" by auto
  have has1: "\<forall>k' \<in> fst ` set xs. hasattr_p_oid w1 k'"
  proof
    fix k' assume k': "k' \<in> fst ` set xs"
    with knot have "k' \<noteq> k" by auto
    with oth have "heap w1 k' = heap w k'" by simp
    moreover from Cons.prems(3) k' have "hasattr_p_oid w k'" by auto
    ultimately show "hasattr_p_oid w1 k'" by (simp add: hasattr_p_oid_def)
  qed
  from Cons.IH[OF wf1 dist has1, of "fmupd i v d"] obtain w' d' where
    r: "getstate_loop xs w1 (fmupd i v d) = Inr (w', d')" and wf': "wf_world w'"
    and oth': "\<forall>r. r \<notin> fst ` set xs \<longrightarrow> heap w' r = heap w1 r"
    and keep': "\<forall>r j. heap w1 r = Persistent (Some j) \<longrightarrow> heap w' r = Persistent (Some j)"
    and ent': "\<forall>k v. (k, v) \<in> set xs \<longrightarrow> (\<exists>i. heap w' k = Persistent (Some i) \<and> fmlookup d' i = Some v)"
    and fr': "\<forall>j. (\<forall>k \<in> fst ` set xs. heap w' k \<noteq> Persistent (Some j)) \<longrightarrow> fmlookup d' j = fmlookup (fmupd i v d) j"
    by blast
  have hk': "heap w' k = Persistent (Some i)" using keep' hk1 by blast
  have noti: "\<forall>k' \<in> fst ` set xs. heap w' k' \<noteq> Persistent (Some i)"
  proof
    fix k' assume k': "k' \<in> fst ` set xs"
    show "heap w' k' \<noteq> Persistent (Some i)"
    proof
      assume "heap w' k' = Persistent (Some i)"
      with wf' have "fmlookup (objects w') i = Some k'" by (simp add: wf_world_def)
      moreover from wf' hk' have "fmlookup (objects w') i = Some k" by (simp add: wf_world_def)
      ultimately have "k' = k" by simp
      with k' knot show False by simp
    qed
  qed
  have di: "fmlookup d' i = Some v" using fr' noti by simp
  have 1: "getstate_loop (x # xs) w d = Inr (w', d')" using s r x by simp
  have 2: "\<forall>r. r \<notin> fst ` set (x # xs) \<longrightarrow> heap w' r = heap w r"
    using oth oth' x by auto
  have 3: "\<forall>r j. heap w r = Persistent (Some j) \<longrightarrow> heap w' r = Persistent (Some j)"
  proof (intro allI impI)
    fix r j assume a: "heap w r = Persistent (Some j)"
    show "heap w' r = Persistent (Some j)"
    proof (cases "r = k")
      case True
      with a keep have "j = i" by simp
      with hk' True show ?thesis by simp
    next
      case False
      with oth a have "heap w1 r = Persistent (Some j)" by simp
      with keep' show ?thesis by blast
    qed
  qed
  have 4: "\<forall>k' v'. (k', v') \<in> set (x # xs) \<longrightarrow> (\<exists>i. heap w' k' = Persistent (Some i) \<and> fmlookup d' i = Some v')"
    using ent' hk' di x by auto
  have 5: "\<forall>j. (\<forall>k' \<in> fst ` set (x # xs). heap w' k' \<noteq> Persistent (Some j)) \<longrightarrow> fmlookup d' j = fmlookup d j"
  proof (intro allI impI)
    fix j assume a: "\<forall>k' \<in> fst ` set (x # xs). heap w' k' \<noteq> Persistent (Some j)"
    with x hk' have "j \<noteq> i" by auto
    moreover from a have "\<forall>k' \<in> fst ` set xs. heap w' k' \<noteq> Persistent (Some j)" by simp
    ultimately show "fmlookup d' j = fmlookup d j" using fr' by simp
  qed
  from 1 wf' 2 3 4 5 show ?case by blast
qed


lemma set_itervalues: "x \<in> set (itervalues m) \<longleftrightarrow> (\<exists>i. fmlookup m i = Some x)"
proof -
  have "set (itervalues m) = {y. \<exists>i \<in> fset (fmdom m). fmlookup m i = Some y}"
    by (force simp: itervalues_def dict_iter_def List.map_filter_def image_iff)
  then show ?thesis
    by (auto simp: fmlookup_dom_iff)
qed

lemma map_fst_map_filter:
  "\<forall>i \<in> set xs. \<exists>v. f i = Some (i, v) \<Longrightarrow> map fst (List.map_filter f xs) = xs"
  by (induction xs) auto

lemma staged_keys:
  assumes "wf_staging w c"
  shows "map fst (itervalues (tmpdata c)) = dict_iter (tmpdata c)"
  unfolding itervalues_def
proof (rule map_fst_map_filter, rule ballI)
  fix i assume "i \<in> set (dict_iter (tmpdata c))"
  then obtain x where x: "fmlookup (tmpdata c) i = Some x"
    by (auto simp: dict_iter_def fmlookup_dom_iff)
  obtain k v where "x = (k, v)" by (cases x)
  with x assms have "fmlookup (tmpdata c) i = Some (i, v)"
    by (auto simp: wf_staging_def id_of_def)
  then show "\<exists>v. fmlookup (tmpdata c) i = Some (i, v)" ..
qed

lemma distinct_dict_iter: "distinct (dict_iter m)"
  by (simp add: dict_iter_def sorted_list_of_fset.rep_eq)

text \<open>
  C2. \<^verbatim>\<open>__getstate__\<close> on an attached container succeeds and empties the staging
  dictionary. Every key that was staged is attached afterwards: it has an identifier that
  the store resolves to it, and a key that had one before keeps it. The value of its staging
  entry is in \<^verbatim>\<open>_data\<close> under that identifier, unchanged.
\<close>

theorem getstate_flushes_staging:
  assumes "p_jar c \<noteq> None" and "wf_world w" and "wf_staging w c"
  shows "\<exists>w' c'. getstate w c = Inr (w', c')
      \<and> tmpdata c' = fmempty
      \<and> p_jar c' = p_jar c
      \<and> (\<forall>i key val. fmlookup (tmpdata c) i = Some (key, val) \<longrightarrow>
           (\<exists>oid. heap w' key = Persistent (Some oid)
                \<and> jar_get w' oid = Inr key
                \<and> (\<forall>j. heap w key = Persistent (Some j) \<longrightarrow> j = oid)
                \<and> fmlookup (data c') oid = Some val))"
proof -
  let ?xs = "itervalues (tmpdata c)"
  have d: "distinct (map fst ?xs)"
    using staged_keys[OF assms(3)] distinct_dict_iter by metis
  have h: "\<forall>k \<in> fst ` set ?xs. hasattr_p_oid w k"
  proof
    fix k assume "k \<in> fst ` set ?xs"
    then obtain v where "(k, v) \<in> set ?xs" by auto
    then obtain i where "fmlookup (tmpdata c) i = Some (k, v)"
      by (auto simp: set_itervalues)
    with assms(3) show "hasattr_p_oid w k" by (auto simp: wf_staging_def)
  qed
  from getstate_loop_correct[OF assms(2) d h, of "data c"] obtain w' d' where
    r: "getstate_loop ?xs w (data c) = Inr (w', d')" and wf': "wf_world w'"
    and keep: "\<forall>r i. heap w r = Persistent (Some i) \<longrightarrow> heap w' r = Persistent (Some i)"
    and ent: "\<forall>k v. (k, v) \<in> set ?xs \<longrightarrow> (\<exists>i. heap w' k = Persistent (Some i) \<and> fmlookup d' i = Some v)"
    by blast
  let ?c' = "c\<lparr>data := d', tmpdata := fmempty\<rparr>"
  have g: "getstate w c = Inr (w', ?c')"
    using assms(1) r by (auto simp: getstate_def)
  have e: "\<forall>i key val. fmlookup (tmpdata c) i = Some (key, val) \<longrightarrow>
           (\<exists>oid. heap w' key = Persistent (Some oid)
                \<and> jar_get w' oid = Inr key
                \<and> (\<forall>j. heap w key = Persistent (Some j) \<longrightarrow> j = oid)
                \<and> fmlookup (data ?c') oid = Some val)"
  proof (intro allI impI)
    fix i key val assume "fmlookup (tmpdata c) i = Some (key, val)"
    then have "(key, val) \<in> set ?xs" by (auto simp: set_itervalues)
    with ent obtain oid where o: "heap w' key = Persistent (Some oid)" "fmlookup d' oid = Some val"
      by blast
    from wf' o(1) have j: "jar_get w' oid = Inr key"
      by (simp add: wf_world_def jar_get_def)
    have k: "\<forall>j. heap w key = Persistent (Some j) \<longrightarrow> j = oid"
    proof (intro allI impI)
      fix j assume "heap w key = Persistent (Some j)"
      with keep have "heap w' key = Persistent (Some j)" by blast
      with o(1) show "j = oid" by simp
    qed
    from o j k show "\<exists>oid. heap w' key = Persistent (Some oid)
                \<and> jar_get w' oid = Inr key
                \<and> (\<forall>j. heap w key = Persistent (Some j) \<longrightarrow> j = oid)
                \<and> fmlookup (data ?c') oid = Some val"
      by (intro exI[of _ oid]) simp
  qed
  from g e show ?thesis
    by (intro exI[of _ w'] exI[of _ ?c']) simp
qed

lemma wf_world_ex: "wf_world w_ex"
  by (simp add: wf_world_def w_ex_def)

lemma wf_staging_ex: "wf_staging w_ex c_flush"
  by (simp add: wf_staging_def c_flush_def w_ex_def hasattr_p_oid_def id_of_def)

lemma wf_staging_init: "wf_staging w init"
  by (simp add: wf_staging_def init_def)

lemma wf_staging_setitem:
  assumes "wf_staging w c"
  shows "wf_staging w (snd (setitem w k v c))"
  using assms
  by (auto simp: wf_staging_def setitem_def checkKey_def p_oid_def hasattr_p_oid_def
      split: pyobj.splits option.splits if_splits)

lemma wf_staging_delitem:
  assumes "wf_staging w c"
  shows "wf_staging w (snd (delitem w k c))"
  using assms
  by (auto simp: wf_staging_def delitem_def checkKey_def p_oid_def
      split: pyobj.splits option.splits if_splits)

theorem getstate_flushes_staging_witness:
  "p_jar c_flush \<noteq> None \<and> wf_world w_ex \<and> wf_staging w_ex c_flush
   \<and> (\<exists>w' c'. getstate w_ex c_flush = Inr (w', c')
        \<and> tmpdata c' = fmempty
        \<and> (\<exists>oid. heap w' 1 = Persistent (Some oid) \<and> jar_get w' oid = Inr 1
               \<and> fmlookup (data c') oid = Some ''a'')
        \<and> heap w' 2 = Persistent (Some 5) \<and> jar_get w' 5 = Inr 2
        \<and> fmlookup (data c') 5 = Some ''b'')"
proof -
  have j: "p_jar c_flush \<noteq> None"
    by (simp add: c_flush_def)
  from getstate_flushes_staging [OF j wf_world_ex wf_staging_ex] obtain w' c' where
    g: "getstate w_ex c_flush = Inr (w', c')" and t: "tmpdata c' = fmempty"
    and e: "\<forall>i key val. fmlookup (tmpdata c_flush) i = Some (key, val) \<longrightarrow>
           (\<exists>oid. heap w' key = Persistent (Some oid)
                \<and> jar_get w' oid = Inr key
                \<and> (\<forall>j. heap w_ex key = Persistent (Some j) \<longrightarrow> j = oid)
                \<and> fmlookup (data c') oid = Some val)"
    by blast
  have "fmlookup (tmpdata c_flush) 1 = Some (1, ''a'')"
    by (simp add: c_flush_def)
  with e have 1: "\<exists>oid. heap w' 1 = Persistent (Some oid) \<and> jar_get w' oid = Inr 1
               \<and> fmlookup (data c') oid = Some ''a''"
    by blast
  have "fmlookup (tmpdata c_flush) 2 = Some (2, ''b'')"
    by (simp add: c_flush_def)
  with e obtain oid where o: "heap w' 2 = Persistent (Some oid)" "jar_get w' oid = Inr 2"
    "\<forall>j. heap w_ex 2 = Persistent (Some j) \<longrightarrow> j = oid" "fmlookup (data c') oid = Some ''b''"
    by blast
  have "heap w_ex 2 = Persistent (Some 5)"
    by (simp add: w_ex_def)
  with o(3) have "oid = 5" by simp
  with o have 2: "heap w' 2 = Persistent (Some 5) \<and> jar_get w' 5 = Inr 2
        \<and> fmlookup (data c') 5 = Some ''b''"
    by simp
  from g t 1 2 have "\<exists>w' c'. getstate w_ex c_flush = Inr (w', c')
        \<and> tmpdata c' = fmempty
        \<and> (\<exists>oid. heap w' 1 = Persistent (Some oid) \<and> jar_get w' oid = Inr 1
               \<and> fmlookup (data c') oid = Some ''a'')
        \<and> heap w' 2 = Persistent (Some 5) \<and> jar_get w' 5 = Inr 2
        \<and> fmlookup (data c') 5 = Some ''b''"
    by (intro exI[of _ w'] exI[of _ c']) simp
  with j wf_world_ex wf_staging_ex show ?thesis
    by (intro conjI)
qed

section \<open>Properties of \<^verbatim>\<open>keys\<close>\<close>

lemma resolve_all_ok:
  assumes "jar \<noteq> None \<or> xs = []" "\<forall>i \<in> set xs. i |\<in>| fmdom (objects w)"
  shows "\<exists>ps. resolve_all w jar xs = Inr ps \<and> map Inr ps = map (jar_get w) xs"
  using assms
proof (induction xs)
  case Nil
  then show ?case by simp
next
  case (Cons i xs)
  from Cons.prems(1) obtain j where j: "jar = Some j" by auto
  with Cons obtain ps where ps: "resolve_all w jar xs = Inr ps" "map Inr ps = map (jar_get w) xs"
    by auto
  from Cons.prems obtain r where r: "fmlookup (objects w) i = Some r"
    by (auto simp: fmlookup_dom_iff)
  from ps r j show ?case
    by (simp add: jar_get_def)
qed

lemma length_dict_iter: "length (dict_iter m) = dict_len m"
  by (simp add: dict_iter_def dict_len_def sorted_list_of_fset.rep_eq fcard.rep_eq)

lemma set_dict_iter: "set (dict_iter m) = fset (fmdom m)"
  by (simp add: dict_iter_def)

lemma dict_iter_empty: "dict_iter fmempty = []"
  by (simp add: dict_iter_def sorted_list_of_fset.rep_eq)

text \<open>
  The part of \<^verbatim>\<open>keys()\<close> that does not depend on the order within a dictionary. On a
  container that is attached, or holds nothing persisted, and whose persisted identifiers
  the store can resolve, \<^verbatim>\<open>keys()\<close> returns a list in two parts: first the objects that the
  store resolves the persisted identifiers to, one for each identifier, then the keys of
  the staging entries, each once. Its length is \<^verbatim>\<open>__len__\<close>.
\<close>

lemma keys_persisted_then_staged:
  assumes "p_jar c \<noteq> None \<or> data c = fmempty"
    and "\<forall>i. i |\<in>| fmdom (data c) \<longrightarrow> i |\<in>| fmdom (objects w)"
    and "wf_staging w c"
  shows "\<exists>ps ss. keys w c = Inr (ps @ ss)
       \<and> map Inr ps = map (jar_get w) (dict_iter (data c))
       \<and> length ps = dict_len (data c)
       \<and> distinct ss
       \<and> set ss = {k. \<exists>i v. fmlookup (tmpdata c) i = Some (k, v)}
       \<and> length (ps @ ss) = len c"
proof -
  have j: "p_jar c \<noteq> None \<or> dict_iter (data c) = []"
    using assms(1) by (auto simp: dict_iter_empty)
  have "\<forall>i \<in> set (dict_iter (data c)). i |\<in>| fmdom (objects w)"
    using assms(2) by (simp add: set_dict_iter)
  from resolve_all_ok[OF j this] obtain ps where
    ps: "resolve_all w (p_jar c) (dict_iter (data c)) = Inr ps"
        "map Inr ps = map (jar_get w) (dict_iter (data c))"
    by blast
  let ?ss = "map fst (itervalues (tmpdata c))"
  have k: "keys w c = Inr (ps @ ?ss)" using ps(1) by (simp add: keys_def)
  have lp: "length ps = dict_len (data c)"
    using ps(2) length_dict_iter[of "data c"] by (metis length_map)
  have ss: "?ss = dict_iter (tmpdata c)" using staged_keys[OF assms(3)] .
  have ds: "distinct ?ss" using ss distinct_dict_iter by metis
  have st: "set ?ss = {k. \<exists>i v. fmlookup (tmpdata c) i = Some (k, v)}"
    by (force simp: set_itervalues image_iff)
  have ln: "length (ps @ ?ss) = len c"
    using lp ss by (simp add: len_def length_dict_iter)
  from k ps(2) lp ds st ln show ?thesis
    by blast
qed

lemma keys_example: "keys w_ex c_keys = Inr [2, 1]"
  by code_simp

end
